theory Spec2Isabelle
  imports
    Main
    "HOL-Library.AList"
    "HOL-Library.Char_ord"
    "HOL-Library.List_Lexorder"
    "HOL-Library.Product_Lexorder"
    "HOL-Library.Sublist"
    "HOL-Library.Multiset"
begin

section \<open>The element tree\<close>

text \<open>
  A topology is an \<^verbatim>\<open>xml.etree.ElementTree\<close> document.  An element has a tag, a
  dictionary of attributes and an ordered list of children.  The attributes the program
  reads and writes are \<^verbatim>\<open>internal\<close>, \<^verbatim>\<open>admix\<close> and \<^verbatim>\<open>side\<close>; the
  dictionary is kept as an association list read with \<open>map_of\<close>.  An
  \<^verbatim>\<open>ElementTree\<close> is identified with its root element.  Tags are taken to be plain
  XPath name tokens (no \<^verbatim>\<open>/ [ ] ( ) @ =\<close> and no blanks), so that
  \<^verbatim>\<open>'.//' + tag\<close> selects by tag.
\<close>

datatype elem = Elem (tag: string) (attrib: "(string \<times> string) list") (children: "elem list")

definition get :: "elem \<Rightarrow> string \<Rightarrow> string option" where
  "get e k = map_of (attrib e) k"

text \<open>\<^verbatim>\<open>for key, value in attrs.iteritems(): new_node.set(key, value)\<close>\<close>

definition set_attrs :: "(string \<times> string) list \<Rightarrow> (string \<times> string) list" where
  "set_attrs attrs = fold (\<lambda>(k, v) al. AList.update k v al) attrs []"

text \<open>\<^verbatim>\<open>Element.iter()\<close>: the element and all its descendants, in document order.\<close>

fun iter :: "elem \<Rightarrow> elem list" where
  "iter (Elem t a cs) = Elem t a cs # concat (map iter cs)"

text \<open>\<^verbatim>\<open>findall('.//*')\<close>: every descendant of the root, the root itself left out.\<close>

definition findall :: "elem \<Rightarrow> elem list" where
  "findall root = concat (map iter (children root))"

text \<open>
  An element object is identified by its position: the list of child indices leading to
  it from the root.  \<open>find_path P e\<close> is the position of the first element of
  \<open>iter e\<close> that satisfies \<open>P\<close>; \<open>find_desc\<close> leaves the root out, as
  \<^verbatim>\<open>find('.//...')\<close> does.
\<close>

fun find_path :: "(elem \<Rightarrow> bool) \<Rightarrow> elem \<Rightarrow> nat list option"
  and find_path_list :: "(elem \<Rightarrow> bool) \<Rightarrow> nat \<Rightarrow> elem list \<Rightarrow> nat list option" where
  "find_path P (Elem t a cs) = (if P (Elem t a cs) then Some [] else find_path_list P 0 cs)"
| "find_path_list P i [] = None"
| "find_path_list P i (c # cs) =
     (case find_path P c of
        Some p \<Rightarrow> Some (i # p)
      | None \<Rightarrow> find_path_list P (Suc i) cs)"

definition find_desc :: "(elem \<Rightarrow> bool) \<Rightarrow> elem \<Rightarrow> nat list option" where
  "find_desc P root = find_path_list P 0 (children root)"

fun get_at :: "nat list \<Rightarrow> elem \<Rightarrow> elem" where
  "get_at [] e = e"
| "get_at (i # p) e = get_at p (children e ! i)"

fun modify_at :: "nat list \<Rightarrow> (elem \<Rightarrow> elem) \<Rightarrow> elem \<Rightarrow> elem" where
  "modify_at [] f e = f e"
| "modify_at (i # p) f e =
     Elem (tag e) (attrib e) ((children e)[i := modify_at p f (children e ! i)])"


section \<open>Errors\<close>

text \<open>
  \<open>NodeUnplaceable\<close> is the program's own exception.  \<open>IndexError\<close> is raised by
  \<^verbatim>\<open>self.nodes[1]\<close> and \<^verbatim>\<open>worst_fstat[-1]\<close>; \<open>TypeError\<close> stands for the
  failure of \<^verbatim>\<open>insert_node\<close> when \<^verbatim>\<open>find\<close> returns \<^verbatim>\<open>None\<close>.
\<close>

datatype exn = NodeUnplaceable string | IndexError | TypeError

section \<open>Labels\<close>

definition digit_char :: "nat \<Rightarrow> char" where
  "digit_char d = ''0123456789'' ! d"

text \<open>\<^verbatim>\<open>'{num}'.format(num=...)\<close> on a non-negative integer.\<close>

function str_nat :: "nat \<Rightarrow> string" where
  "str_nat n = (if n < 10 then [digit_char n] else str_nat (n div 10) @ [digit_char (n mod 10)])"
  by pat_completeness auto
termination
  by (relation "measure id") auto

definition new_label :: "elem \<Rightarrow> bool \<Rightarrow> string" where
  "new_label root_tree admix =
     (let all_nodes = findall root_tree;
          num = (if admix
                 then length (filter (\<lambda>node. get node ''admix'' = Some ''1'') all_nodes) div 2
                 else length (filter (\<lambda>node. get node ''internal'' = Some ''1''
                                            \<and> get node ''admix'' \<noteq> Some ''1'') all_nodes))
      in (if admix then ''a'' else ''n'') @ str_nat (num + 1))"

section \<open>Insertion\<close>

text \<open>
  The XPath built from the target: \<^verbatim>\<open>'.//' + target_node.tag\<close>, with the predicate
  \<^verbatim>\<open>[@side="..."]\<close> added when the target has a non-empty \<^verbatim>\<open>side\<close> attribute.
\<close>

definition target_xpath :: "elem \<Rightarrow> elem \<Rightarrow> bool" where
  "target_xpath target_node e =
     (tag e = tag target_node \<and>
      (case get target_node ''side'' of
         None \<Rightarrow> True
       | Some s \<Rightarrow> if s = [] then True else get e ''side'' = Some s))"

text \<open>\<^verbatim>\<open>ElemTree.SubElement(parent_node, tag)\<close> followed by the attribute loop.\<close>

definition SubElement :: "elem \<Rightarrow> elem \<Rightarrow> elem" where
  "SubElement new_node parent_node =
     Elem (tag parent_node) (attrib parent_node) (children parent_node @ [new_node])"

definition remove_child :: "nat \<Rightarrow> 'a list \<Rightarrow> 'a list" where
  "remove_child i cs = take i cs @ drop (Suc i) cs"

text \<open>
  The target, child \<open>i\<close> of its parent, is taken out of the parent
  (\<^verbatim>\<open>parent_node.remove(target_node)\<close>) and the intermediate node, which holds
  the target and the new node, is added at the end of the parent's children.
\<close>

definition move_under :: "nat \<Rightarrow> elem \<Rightarrow> elem \<Rightarrow> elem" where
  "move_under i mid parent_node =
     Elem (tag parent_node) (attrib parent_node) (remove_child i (children parent_node) @ [mid])"

text \<open>
  \<^verbatim>\<open>insert_node\<close> mutates \<^verbatim>\<open>new_tree\<close> and returns the new node; the model
  returns both.  The target is looked up again in \<^verbatim>\<open>new_tree\<close> through its tag and
  side.  Without \<^verbatim>\<open>append\<close> the new node becomes a sibling of the target; when the
  target's parent has more than one child, the target is first moved under a new
  intermediate node.
\<close>

definition insert_node ::
  "elem \<Rightarrow> elem \<Rightarrow> string \<Rightarrow> (string \<times> string) list \<Rightarrow> bool \<Rightarrow> exn + (elem \<times> elem)" where
  "insert_node new_tree target_node new_tag attrs do_append =
     (let new_node = Elem new_tag (set_attrs attrs) [] in
      case find_desc (target_xpath target_node) new_tree of
        None \<Rightarrow> Inl TypeError
      | Some p \<Rightarrow>
          if do_append then Inr (modify_at p (SubElement new_node) new_tree, new_node)
          else
            let pp = butlast p;
                parent_node = get_at pp new_tree
            in if length (children parent_node) > 1
               then
                 let label = new_label new_tree False;
                     target = get_at p new_tree;
                     mid = Elem label [(''internal'', ''1'')] [target, new_node]
                 in Inr (modify_at pp (move_under (last p) mid) new_tree, new_node)
               else Inr (modify_at pp (SubElement new_node) new_tree, new_node))"


definition num_admix :: "elem \<Rightarrow> nat" where
  "num_admix new_tree =
     length (filter (\<lambda>node. get node ''admix'' = Some ''1'') (findall new_tree)) div 2"


section \<open>Strings\<close>

text \<open>The whitespace of \<^verbatim>\<open>str.split()\<close> and \<^verbatim>\<open>str.strip()\<close>.\<close>

definition is_space :: "char \<Rightarrow> bool" where
  "is_space c = (c \<in> set [CHR '' '', CHR 0x09, CHR 0x0A, CHR 0x0B, CHR 0x0C, CHR 0x0D])"

fun split_from :: "string \<Rightarrow> string \<Rightarrow> string list" where
  "split_from cur [] = (if cur = [] then [] else [cur])"
| "split_from cur (c # cs) =
     (if is_space c then (if cur = [] then split_from [] cs else cur # split_from [] cs)
      else split_from (cur @ [c]) cs)"

definition split :: "string \<Rightarrow> string list" where
  "split line = split_from [] line"

definition strip :: "string \<Rightarrow> string" where
  "strip line = rev (dropWhile is_space (rev (dropWhile is_space line)))"

fun join :: "string \<Rightarrow> string list \<Rightarrow> string" where
  "join sep [] = []"
| "join sep [x] = x"
| "join sep (x # y # ys) = x @ sep @ join sep (y # ys)"

definition is_digit :: "char \<Rightarrow> bool" where
  "is_digit c = (c \<in> set ''0123456789'')"

text \<open>
  \<^verbatim>\<open>re.match('n[0-9]+|R', tag)\<close>: the pattern is matched at the start of the tag and
  need not reach its end.
\<close>

definition re_match_internal :: "string \<Rightarrow> bool" where
  "re_match_internal s =
     (case s of
        [] \<Rightarrow> False
      | c # cs \<Rightarrow>
          (c = CHR ''n'' \<and> (case cs of [] \<Rightarrow> False | d # _ \<Rightarrow> is_digit d)) \<or> c = CHR ''R'')"

section \<open>The oracle's log\<close>

fun extract_loop ::
  "string list \<Rightarrow> string list list \<Rightarrow> bool \<Rightarrow> string list \<Rightarrow> string list list \<times> string list" where
  "extract_loop [] outliers read_log worst_fstat = (outliers, worst_fstat)"
| "extract_loop (line # log) outliers read_log worst_fstat =
     (if sublist ''outliers'' line then extract_loop log outliers True worst_fstat
      else if sublist ''worst f-stat'' line then extract_loop log outliers False (split line)
      else if read_log \<and> length (strip line) > 0
           then extract_loop log (outliers @ [split line]) read_log worst_fstat
           else extract_loop log outliers read_log worst_fstat)"

definition extract_outliers :: "string list \<Rightarrow> string list list \<times> string list" where
  "extract_outliers log = extract_loop log [] False []"

section \<open>Canonical form\<close>

fun export_newick_tree :: "elem \<Rightarrow> string" where
  "export_newick_tree (Elem t a cs) =
     (if length cs = 0 then t
      else
        let children = sort (map (\<lambda>child_node. (tag child_node, export_newick_tree child_node)) cs);
            tag_name = (if re_match_internal t then [] else t)
        in ''('' @ join '','' (map snd children) @ '')'' @ tag_name)"

text \<open>
  The collaborators that are not part of the repository are parameters: \<open>qpGraph\<close> is the
  log of qpGraph for a tree, as lines (the cached log file when there is one);
  \<open>sha1_hex\<close> is \<^verbatim>\<open>hashlib.sha1(text).hexdigest()\<close>; \<open>phylo\<close> is the round trip
  through \<^verbatim>\<open>Bio.Phylo\<close> (read, ladderize, write) followed by the removal of the
  zero branch lengths.
\<close>

record env =
  qpGraph :: "elem \<Rightarrow> string list"
  sha1_hex :: "string \<Rightarrow> string"
  phylo :: "string \<Rightarrow> string"

definition hash_text :: "env \<Rightarrow> string \<Rightarrow> string" where
  "hash_text E text = take 7 (sha1_hex E text)"

definition print_newick_tree :: "env \<Rightarrow> elem \<Rightarrow> string" where
  "print_newick_tree E root_tee = phylo E (export_newick_tree root_tee)"

section \<open>The search\<close>

definition MAX_OUTLIER_THRESHOLD :: nat where
  "MAX_OUTLIER_THRESHOLD = 0"

definition EXHAUSTIVE_SEARCH :: bool where
  "EXHAUSTIVE_SEARCH = False"

text \<open>The attributes of a \<^verbatim>\<open>PermuteQpgraph\<close> object.\<close>

record qp =
  par_file :: string
  dot_path :: string
  pdf_path :: string
  nodes :: "string list"
  outgroup :: string
  root_node :: string
  problem_nodes :: "string list"
  tested_graphs :: "string set"
  solutions :: "string set"

text \<open>
  The constructor removes the outgroup from the caller's list in place
  (\<^verbatim>\<open>nodes.remove(outgroup)\<close> removes the first occurrence); the second component is
  the caller's list afterwards.
\<close>

definition PermuteQpgraph_init ::
  "string \<Rightarrow> string \<Rightarrow> string \<Rightarrow> string list \<Rightarrow> string \<Rightarrow> qp \<times> string list" where
  "PermuteQpgraph_init par dot pdf nodes0 outgroup0 =
     (let nodes1 = (if outgroup0 \<in> set nodes0 then remove1 outgroup0 nodes0 else nodes0)
      in (\<lparr> par_file = par, dot_path = dot, pdf_path = pdf, nodes = nodes1,
             outgroup = outgroup0, root_node = ''R'', problem_nodes = [],
             tested_graphs = {}, solutions = {} \<rparr>, nodes1))"

type_synonym result = "elem \<times> string list list \<times> string"

text \<open>
  \<^verbatim>\<open>run_qpgraph\<close>: the summary line printed at the end reads
  \<^verbatim>\<open>worst_fstat[-1]\<close>, which raises when the log had no worst f-stat line.
\<close>

definition run_qpgraph :: "env \<Rightarrow> elem \<Rightarrow> nat \<Rightarrow> exn + result" where
  "run_qpgraph E new_tree depth =
     (let newick = print_newick_tree E new_tree;
          graph_name = hash_text E newick;
          log = qpGraph E new_tree;
          (outliers, worst_fstat) = extract_outliers log
      in if worst_fstat = [] then Inl IndexError
         else Inr (new_tree, outliers, graph_name))"

fun test_trees :: "env \<Rightarrow> elem list \<Rightarrow> nat \<Rightarrow> exn + result list" where
  "test_trees E [] depth = Inr []"
| "test_trees E (new_tree # new_trees) depth =
     (case run_qpgraph E new_tree depth of
        Inl e \<Rightarrow> Inl e
      | Inr r \<Rightarrow> (case test_trees E new_trees depth of
                    Inl e \<Rightarrow> Inl e
                  | Inr rs \<Rightarrow> Inr (r # rs)))"

text \<open>
  A call of the search either runs out of fuel (\<open>None\<close>) or ends with the object's
  state and an outcome: an exception or a value.  The state is kept when an exception
  is raised, as the attributes of the object are.
\<close>

type_synonym 'a outcome = "((exn + 'a) \<times> qp) option"

text \<open>
  \<^verbatim>\<open>check_results\<close>; \<open>rec\<close> is \<^verbatim>\<open>self.recurse_tree\<close>.
\<close>

fun check_loop ::
  "(elem \<Rightarrow> string \<Rightarrow> string list \<Rightarrow> nat \<Rightarrow> qp \<Rightarrow> unit outcome) \<Rightarrow>
   result list \<Rightarrow> string list \<Rightarrow> nat \<Rightarrow> bool \<Rightarrow> qp \<Rightarrow> bool outcome" where
  "check_loop rec [] remaining depth placed_node S = Some (Inr placed_node, S)"
| "check_loop rec ((new_tree, outliers, graph_name) # results) remaining depth placed_node S =
     (let S1 = S\<lparr> tested_graphs := insert graph_name (tested_graphs S) \<rparr>
      in if length outliers \<le> MAX_OUTLIER_THRESHOLD
         then
           (if remaining \<noteq> []
            then (case rec new_tree (hd remaining) (tl remaining) (depth + 1) S1 of
                    None \<Rightarrow> None
                  | Some (Inl e, S2) \<Rightarrow> Some (Inl e, S2)
                  | Some (Inr u, S2) \<Rightarrow> check_loop rec results remaining depth True S2)
            else check_loop rec results remaining depth True
                   (S1\<lparr> solutions := insert graph_name (solutions S1) \<rparr>))
         else check_loop rec results remaining depth placed_node S1)"

definition check_results ::
  "(elem \<Rightarrow> string \<Rightarrow> string list \<Rightarrow> nat \<Rightarrow> qp \<Rightarrow> unit outcome) \<Rightarrow>
   result list \<Rightarrow> string list \<Rightarrow> nat \<Rightarrow> qp \<Rightarrow> bool outcome" where
  "check_results rec results remaining depth S = check_loop rec results remaining depth False S"

fun mapM :: "('a \<Rightarrow> exn + 'b) \<Rightarrow> 'a list \<Rightarrow> exn + 'b list" where
  "mapM f [] = Inr []"
| "mapM f (x # xs) =
     (case f x of
        Inl e \<Rightarrow> Inl e
      | Inr y \<Rightarrow> (case mapM f xs of Inl e \<Rightarrow> Inl e | Inr ys \<Rightarrow> Inr (y # ys)))"

text \<open>The nodes of the tree that can be targets: all but the outgroup.\<close>

definition target_nodes :: "qp \<Rightarrow> elem \<Rightarrow> elem list" where
  "target_nodes S root_tree = filter (\<lambda>node. tag node \<noteq> outgroup S) (findall root_tree)"

text \<open>One new tree of the first loop: a copy of the tree with the new node on a branch.\<close>

definition regular_tree :: "elem \<Rightarrow> string \<Rightarrow> elem \<Rightarrow> exn + elem" where
  "regular_tree root_tree new_tag target_node =
     (case insert_node root_tree target_node new_tag [] False of
        Inl e \<Rightarrow> Inl e
      | Inr (new_tree, new_node) \<Rightarrow> Inr new_tree)"

text \<open>\<^verbatim>\<open>itertools.combinations(target_nodes, 2)\<close>\<close>

fun combinations2 :: "'a list \<Rightarrow> ('a \<times> 'a) list" where
  "combinations2 [] = []"
| "combinations2 (x # xs) = map (Pair x) xs @ combinations2 xs"

text \<open>One new tree of the admixture loop, for a pair of targets with different tags.\<close>

definition admix_tree :: "elem \<Rightarrow> string \<Rightarrow> elem \<times> elem \<Rightarrow> exn + elem" where
  "admix_tree root_tree new_tag pair =
     (let (target1, target2) = pair;
          admix_label = new_label root_tree True
      in case insert_node root_tree target1 admix_label
                [(''internal'', ''1''), (''admix'', ''1''), (''side'', ''l'')] False of
           Inl e \<Rightarrow> Inl e
         | Inr (tree1, admix_node0) \<Rightarrow>
             (case insert_node tree1 target2 admix_label
                     [(''internal'', ''1''), (''admix'', ''1''), (''side'', ''r'')] False of
                Inl e \<Rightarrow> Inl e
              | Inr (tree2, admix_node1) \<Rightarrow>
                  let admix_node = (if tag target1 < tag target2 then admix_node0 else admix_node1)
                  in (case insert_node tree2 admix_node new_tag [] True of
                        Inl e \<Rightarrow> Inl e
                      | Inr (tree3, new_node) \<Rightarrow> Inr tree3)))"

definition admix_trees :: "elem \<Rightarrow> string \<Rightarrow> elem list \<Rightarrow> exn + elem list" where
  "admix_trees root_tree new_tag targets =
     mapM (admix_tree root_tree new_tag)
       (filter (\<lambda>(target1, target2). tag target1 \<noteq> tag target2) (combinations2 targets))"

text \<open>
  \<^verbatim>\<open>recurse_tree\<close> has three parts, written here one by one with the recursive
  call \<open>rec\<close> as a parameter.  The first part adds the new node to every branch of the
  tree, tests the trees and processes the results.
\<close>

definition regular_pass ::
  "(elem \<Rightarrow> string \<Rightarrow> string list \<Rightarrow> nat \<Rightarrow> qp \<Rightarrow> unit outcome) \<Rightarrow>
   env \<Rightarrow> elem \<Rightarrow> elem list \<Rightarrow> string \<Rightarrow> string list \<Rightarrow> nat \<Rightarrow> qp \<Rightarrow> bool outcome" where
  "regular_pass rec E root_tree targets new_tag remaining depth S =
     (case mapM (regular_tree root_tree new_tag) targets of
        Inl e \<Rightarrow> Some (Inl e, S)
      | Inr new_trees \<Rightarrow>
          (case test_trees E new_trees depth of
             Inl e \<Rightarrow> Some (Inl e, S)
           | Inr results \<Rightarrow> check_results rec results remaining depth S))"

text \<open>The second part, run when no node was placed: all the pairs of branches.\<close>

definition admix_pass ::
  "(elem \<Rightarrow> string \<Rightarrow> string list \<Rightarrow> nat \<Rightarrow> qp \<Rightarrow> unit outcome) \<Rightarrow>
   env \<Rightarrow> elem \<Rightarrow> elem list \<Rightarrow> string \<Rightarrow> string list \<Rightarrow> nat \<Rightarrow> qp \<Rightarrow> bool outcome" where
  "admix_pass rec E root_tree targets new_tag remaining depth S =
     (case admix_trees root_tree new_tag targets of
        Inl e \<Rightarrow> Some (Inl e, S)
      | Inr trees \<Rightarrow>
          (case test_trees E trees depth of
             Inl e \<Rightarrow> Some (Inl e, S)
           | Inr results \<Rightarrow> check_results rec results remaining depth S))"

text \<open>
  The third part, run when the node was placed by neither: the node is put at the end of
  the list and the first of the list is tried, or \<^verbatim>\<open>NodeUnplaceable\<close> is raised.
\<close>

definition backtrack ::
  "(elem \<Rightarrow> string \<Rightarrow> string list \<Rightarrow> nat \<Rightarrow> qp \<Rightarrow> unit outcome) \<Rightarrow>
   elem \<Rightarrow> string \<Rightarrow> string list \<Rightarrow> nat \<Rightarrow> qp \<Rightarrow> unit outcome" where
  "backtrack rec root_tree new_tag remaining depth S =
     (if new_tag \<notin> set (problem_nodes S) \<and> remaining \<noteq> [] \<and> \<not> EXHAUSTIVE_SEARCH
      then
        let S1 = S\<lparr> problem_nodes := problem_nodes S @ [new_tag] \<rparr>;
            remaining1 = remaining @ [new_tag]
        in rec root_tree (hd remaining1) (tl remaining1) depth S1
      else Some (Inl (NodeUnplaceable new_tag), S))"

text \<open>
  \<^verbatim>\<open>recurse_tree\<close>.  The fuel bounds the depth of the calls; \<open>None\<close> means that
  it ran out.
\<close>

fun recurse_tree ::
  "nat \<Rightarrow> env \<Rightarrow> elem \<Rightarrow> string \<Rightarrow> string list \<Rightarrow> nat \<Rightarrow> qp \<Rightarrow> unit outcome" where
  "recurse_tree 0 E root_tree new_tag remaining depth S = None"
| "recurse_tree (Suc fuel) E root_tree new_tag remaining depth S =
     (let targets = target_nodes S root_tree
      in case regular_pass (recurse_tree fuel E) E root_tree targets new_tag remaining depth S of
           None \<Rightarrow> None
         | Some (Inl e, S1) \<Rightarrow> Some (Inl e, S1)
         | Some (Inr node_placed, S1) \<Rightarrow>
             (case (if \<not> node_placed
                    then admix_pass (recurse_tree fuel E) E root_tree targets new_tag remaining depth S1
                    else Some (Inr node_placed, S1)) of
                None \<Rightarrow> None
              | Some (Inl e, S2) \<Rightarrow> Some (Inl e, S2)
              | Some (Inr node_placed2, S2) \<Rightarrow>
                  if \<not> node_placed2
                  then backtrack (recurse_tree fuel E) root_tree new_tag remaining depth S2
                  else Some (Inr (), S2)))"

text \<open>\<^verbatim>\<open>find_graph\<close>: the two-node tree, then all the other nodes.\<close>

definition find_graph :: "nat \<Rightarrow> env \<Rightarrow> qp \<Rightarrow> unit outcome" where
  "find_graph fuel E S =
     (if length (nodes S) < 2 then Some (Inl IndexError, S)
      else
        let root_tree = Elem (root_node S) []
                          [Elem (outgroup S) [] [], Elem (nodes S ! 0) [] []]
        in recurse_tree fuel E root_tree (nodes S ! 1) (drop 2 (nodes S)) 0 S)"

text \<open>\<^verbatim>\<open>itertools.permutations(nodes, len(nodes))\<close>, in the order of itertools.\<close>

function permutations :: "'a list \<Rightarrow> 'a list list" where
  "permutations xs =
     (if xs = [] then [[]]
      else concat (map (\<lambda>i. map ((#) (xs ! i)) (permutations (take i xs @ drop (Suc i) xs)))
                       [0..<length xs]))"
  by pat_completeness auto
termination
  by (relation "measure length") auto

text \<open>
  The loop of \<^verbatim>\<open>permute_qpgraph\<close>.  \<^verbatim>\<open>all_nodes_perms.pop()\<close> takes the last
  order of the work list; the loop ends when a solution is known or the list is empty.
  Only \<^verbatim>\<open>NodeUnplaceable\<close> is caught.
\<close>

function permute_loop :: "nat \<Rightarrow> env \<Rightarrow> string list list \<Rightarrow> qp \<Rightarrow> unit outcome" where
  "permute_loop fuel E all_nodes_perms S =
     (if solutions S = {} \<or> EXHAUSTIVE_SEARCH
      then
        (case find_graph fuel E S of
           None \<Rightarrow> None
         | Some (r, S1) \<Rightarrow>
             (case r of
                Inl IndexError \<Rightarrow> Some (Inl IndexError, S1)
              | Inl TypeError \<Rightarrow> Some (Inl TypeError, S1)
              | _ \<Rightarrow>
                  if all_nodes_perms = [] then Some (Inr (), S1)
                  else permute_loop fuel E (butlast all_nodes_perms)
                         (S1\<lparr> nodes := last all_nodes_perms \<rparr>)))
      else Some (Inr (), S))"
  by pat_completeness auto
termination
  by (relation "measure (\<lambda>(fuel, E, perms, S). length perms)") auto

definition permute_qpgraph ::
  "nat \<Rightarrow> env \<Rightarrow> string \<Rightarrow> string \<Rightarrow> string \<Rightarrow> string list \<Rightarrow> string \<Rightarrow> bool outcome" where
  "permute_qpgraph fuel E par dot pdf nodes0 outgroup0 =
     (let (S, nodes1) = PermuteQpgraph_init par dot pdf nodes0 outgroup0;
          all_nodes_perms = permutations nodes1
      in case permute_loop fuel E all_nodes_perms S of
           None \<Rightarrow> None
         | Some (Inl e, S1) \<Rightarrow> Some (Inl e, S1)
         | Some (Inr u, S1) \<Rightarrow> Some (Inr (solutions S1 \<noteq> {}), S1))"


section \<open>Labels and edges of a tree\<close>

text \<open>
  The statements about the shape of a tree are made on two multisets: the labels of its
  nodes, a label being the tag and the attributes of a node, and its parent-child edges,
  each a pair of labels.
\<close>

definition lab :: "elem \<Rightarrow> string \<times> (string \<times> string) list" where
  "lab e = (tag e, attrib e)"

definition labs_of :: "elem \<Rightarrow> (string \<times> (string \<times> string) list) multiset" where
  "labs_of e = mset (map lab (iter e))"





text \<open>
  The environment of the examples: qpGraph's log depends on the tag of the root of the
  tree only.  A tree rooted at \<open>X\<close> gets a log with no marker at all, a tree rooted at
  \<open>Y\<close> a log without the outliers line, any other tree a complete log with no outlier.
\<close>

definition E_logs :: env where
  "E_logs = \<lparr> qpGraph = (\<lambda>t. if tag t = ''X'' then [''fatalx: bad parameter file'']
                              else if tag t = ''Y'' then [''worst f-stat: 0.5'']
                              else [''outliers:'', '''', ''worst f-stat: 0.5'']),
               sha1_hex = id, phylo = id \<rparr>"



text \<open>
  A result passes when its number of outliers is at most the threshold.
\<close>

definition passes :: "result \<Rightarrow> bool" where
  "passes r = (length (fst (snd r)) \<le> MAX_OUTLIER_THRESHOLD)"

text \<open>
  The state only grows during the search: the list of problem nodes and the two sets
  get new members, and the other attributes stay.
\<close>

definition grows :: "qp \<Rightarrow> qp \<Rightarrow> bool" where
  "grows S S' =
     (set (problem_nodes S) \<subseteq> set (problem_nodes S') \<and>
      tested_graphs S \<subseteq> tested_graphs S' \<and>
      solutions S \<subseteq> solutions S' \<and>
      nodes S' = nodes S \<and> outgroup S' = outgroup S \<and> root_node S' = root_node S)"

text \<open>
  A recursion that only lets the state grow.
\<close>

definition rec_grows :: "(elem \<Rightarrow> string \<Rightarrow> string list \<Rightarrow> nat \<Rightarrow> qp \<Rightarrow> unit outcome) \<Rightarrow> bool" where
  "rec_grows rec = (\<forall>t x rem d S0 r S1. rec t x rem d S0 = Some (r, S1) \<longrightarrow> grows S0 S1)"

text \<open>
  An environment in which qpGraph reports one outlier for every tree.
\<close>

definition E_fail :: env where
  "E_fail = \<lparr> qpGraph = (\<lambda>t. [''outliers:'', ''A B C D 3.5'', '''', ''worst f-stat: 3.5'']),
               sha1_hex = id, phylo = id \<rparr>"

text \<open>
  The object made by the constructor for the populations \<open>A\<close>, \<open>B\<close>, \<open>C\<close> and the
  outgroup \<open>Out\<close>.
\<close>

definition qp_ABC :: qp where
  "qp_ABC = fst (PermuteQpgraph_init [] [] [] [''Out'', ''A'', ''B'', ''C''] ''Out'')"









section \<open>Trees: positions, labels and edges\<close>







lemma lab_modify_at: "p \<noteq> [] \<Longrightarrow> lab (modify_at p f e) = lab e"
  by (cases p) (simp_all add: lab_def)















lemma labs_of_leaf: "labs_of (Elem t a []) = {#(t, a)#}"
  by (simp add: labs_of_def lab_def)
















lemma insert_node_new_node:
  "insert_node t tg nt attrs ap = Inr (t', nn) \<Longrightarrow> nn = Elem nt (set_attrs attrs) []"
  by (auto simp: insert_node_def Let_def split: option.splits if_splits)

















section \<open>The oracle's log\<close>

lemma extract_loop_no_outliers:
  "\<forall>line\<in>set log. \<not> sublist ''outliers'' line \<Longrightarrow>
   fst (extract_loop log outliers False worst) = outliers"
  by (induction log arbitrary: worst) simp_all

text \<open>
  Claim C7, as amended.  Nothing tells a malformed log from a log with no outlier: when
  no line of the log contains \<^verbatim>\<open>outliers\<close>, the list of outliers is empty, and if
  the log has a worst f-stat line the evaluation returns the tree with no outlier, as it
  does for a complete log without outliers.
\<close>

theorem missing_outliers_marker_reads_as_no_outlier:
  assumes "\<forall>line\<in>set (qpGraph E new_tree). \<not> sublist ''outliers'' line"
  shows "fst (extract_outliers (qpGraph E new_tree)) = [] \<and>
         (snd (extract_outliers (qpGraph E new_tree)) \<noteq> [] \<longrightarrow>
            run_qpgraph E new_tree depth
              = Inr (new_tree, [], hash_text E (print_newick_tree E new_tree)))"
proof -
  have "fst (extract_outliers (qpGraph E new_tree)) = []"
    unfolding extract_outliers_def using assms by (rule extract_loop_no_outliers)
  then show ?thesis
    by (cases "extract_outliers (qpGraph E new_tree)") (simp add: run_qpgraph_def Let_def)
qed

theorem missing_outliers_marker_reads_as_no_outlier_witness:
  "qpGraph E_logs (Elem ''Y'' [] []) = [''worst f-stat: 0.5''] \<and>
   \<not> sublist ''outliers'' ''worst f-stat: 0.5'' \<and>
   fst (extract_outliers (qpGraph E_logs (Elem ''Y'' [] []))) = [] \<and>
   snd (extract_outliers (qpGraph E_logs (Elem ''Y'' [] []))) \<noteq> [] \<and>
   run_qpgraph E_logs (Elem ''Y'' [] []) 0 = Inr (Elem ''Y'' [] [], [], ''Y'')"
proof -
  have h: "\<forall>line\<in>set (qpGraph E_logs (Elem ''Y'' [] [])). \<not> sublist ''outliers'' line"
    by (simp add: E_logs_def sublist_code)
  have w: "snd (extract_outliers (qpGraph E_logs (Elem ''Y'' [] []))) \<noteq> []"
    by code_simp
  have n: "hash_text E_logs (print_newick_tree E_logs (Elem ''Y'' [] [])) = ''Y''"
    by code_simp
  have l: "qpGraph E_logs (Elem ''Y'' [] []) = [''worst f-stat: 0.5'']"
    by (simp add: E_logs_def)
  have s: "\<not> sublist ''outliers'' ''worst f-stat: 0.5''"
    by (simp add: sublist_code)
  from missing_outliers_marker_reads_as_no_outlier[OF h, of 0] w n
  have "fst (extract_outliers (qpGraph E_logs (Elem ''Y'' [] []))) = [] \<and>
        snd (extract_outliers (qpGraph E_logs (Elem ''Y'' [] []))) \<noteq> [] \<and>
        run_qpgraph E_logs (Elem ''Y'' [] []) 0 = Inr (Elem ''Y'' [] [], [], ''Y'')"
    by simp
  with l s show ?thesis by (intro conjI) simp_all
qed

text \<open>
  Claim C7 as stated fails.  The log without the outliers line gives exactly the result
  of the complete log with no outlier; and one tree whose log has no worst f-stat line
  makes the whole batch raise, though the other tree of the batch has a complete log.
\<close>

theorem malformed_log_counterexample:
  "extract_outliers [''worst f-stat: 0.5''] = extract_outliers [''outliers:'', '''', ''worst f-stat: 0.5''] \<and>
   run_qpgraph E_logs (Elem ''Z'' [] []) 0 = Inr (Elem ''Z'' [] [], [], ''Z'') \<and>
   test_trees E_logs [Elem ''X'' [] [], Elem ''Z'' [] []] 0 = Inl IndexError"
  by code_simp

section \<open>Canonical form\<close>





section \<open>Processing the results\<close>

lemma check_loop_cong:
  assumes "\<forall>r\<in>set results. passes r \<longrightarrow> rec1 (fst r) = rec2 (fst r)"
  shows "check_loop rec1 results remaining depth placed S
       = check_loop rec2 results remaining depth placed S"
  using assms
proof (induction results arbitrary: placed S)
  case Nil
  then show ?case by simp
next
  case (Cons r results)
  obtain new_tree outliers graph_name where r: "r = (new_tree, outliers, graph_name)"
    by (cases r) auto
  from Cons.prems have IH: "\<And>placed S. check_loop rec1 results remaining depth placed S
       = check_loop rec2 results remaining depth placed S"
    by (intro Cons.IH) simp
  from Cons.prems have "length outliers \<le> MAX_OUTLIER_THRESHOLD \<Longrightarrow> rec1 new_tree = rec2 new_tree"
    by (simp add: r passes_def)
  then show ?case using IH
    by (cases "length outliers \<le> MAX_OUTLIER_THRESHOLD")
       (auto simp: r Let_def split: option.splits sum.splits prod.splits)
qed

lemma check_loop_no_remaining:
  "check_loop rec results [] depth placed S
     = Some (Inr (placed \<or> (\<exists>r\<in>set results. passes r)),
             S\<lparr> tested_graphs := tested_graphs S \<union> (snd \<circ> snd) ` set results,
                solutions := solutions S \<union> (snd \<circ> snd) ` {r \<in> set results. passes r} \<rparr>)"
proof (induction results arbitrary: placed S)
  case Nil
  then show ?case by simp
next
  case (Cons r results)
  obtain new_tree outliers graph_name where r: "r = (new_tree, outliers, graph_name)"
    by (cases r) auto
  show ?case
  proof (cases "length outliers \<le> MAX_OUTLIER_THRESHOLD")
    case True
    then have p: "passes r" by (simp add: passes_def r)
    have "{x \<in> set (r # results). passes x} = insert r {x \<in> set results. passes x}"
      using p by auto
    then show ?thesis using True p by (simp add: r Cons.IH Let_def Un_commute insert_commute)
  next
    case False
    then have p: "\<not> passes r" by (simp add: passes_def r)
    have "{x \<in> set (r # results). passes x} = {x \<in> set results. passes x}"
      using p by auto
    then show ?thesis using False p by (simp add: r Cons.IH Let_def)
  qed
qed

text \<open>
  Claim C1 (pruning).  \<^verbatim>\<open>check_results\<close> passes a candidate to the recursion only
  when its number of outliers is at most the threshold: two recursions that agree on the
  candidates within the threshold give the same outcome, whatever they do on the others.
  When the list of remaining nodes is empty no recursion is made, and the solutions
  recorded are the names of the candidates within the threshold.
\<close>

theorem check_results_prunes:
  "((\<forall>r\<in>set results. passes r \<longrightarrow> rec1 (fst r) = rec2 (fst r)) \<longrightarrow>
      check_results rec1 results remaining depth S = check_results rec2 results remaining depth S) \<and>
   check_results rec1 results [] depth S
     = Some (Inr (\<exists>r\<in>set results. passes r),
             S\<lparr> tested_graphs := tested_graphs S \<union> (snd \<circ> snd) ` set results,
                solutions := solutions S \<union> (snd \<circ> snd) ` {r \<in> set results. passes r} \<rparr>)"
  unfolding check_results_def using check_loop_cong check_loop_no_remaining by auto

theorem check_results_prunes_witness:
  "passes (Elem ''T1'' [] [], [], ''g1'') \<and>
   \<not> passes (Elem ''T2'' [] [], [[''A'', ''B'', ''3.2'']], ''g2'') \<and>
   (\<lambda>(t::elem) (x::string) (rem::string list) (d::nat) (S::qp). Some (Inr (), S) :: unit outcome)
       (Elem ''T2'' [] [])
     \<noteq> (\<lambda>(t::elem) (x::string) (rem::string list) (d::nat) (S::qp).
               if t = Elem ''T2'' [] [] then Some (Inl TypeError, S) else Some (Inr (), S) :: unit outcome)
       (Elem ''T2'' [] []) \<and>
   check_results (\<lambda>t x rem d S. Some (Inr (), S))
       [(Elem ''T1'' [] [], [], ''g1''), (Elem ''T2'' [] [], [[''A'', ''B'', ''3.2'']], ''g2'')]
       [''C''] 0 qp_ABC
     = check_results (\<lambda>t x rem d S. if t = Elem ''T2'' [] [] then Some (Inl TypeError, S) else Some (Inr (), S))
       [(Elem ''T1'' [] [], [], ''g1''), (Elem ''T2'' [] [], [[''A'', ''B'', ''3.2'']], ''g2'')]
       [''C''] 0 qp_ABC"
proof -
  let ?rs = "[(Elem ''T1'' [] [], [], ''g1''), (Elem ''T2'' [] [], [[''A'', ''B'', ''3.2'']], ''g2'')]"
  let ?r1 = "\<lambda>(t::elem) (x::string) (rem::string list) (d::nat) (S::qp). Some (Inr (), S) :: unit outcome"
  let ?r2 = "\<lambda>(t::elem) (x::string) (rem::string list) (d::nat) (S::qp).
               if t = Elem ''T2'' [] [] then Some (Inl TypeError, S) else Some (Inr (), S) :: unit outcome"
  have h: "\<forall>r\<in>set ?rs. passes r \<longrightarrow> ?r1 (fst r) = ?r2 (fst r)"
    by (simp add: passes_def MAX_OUTLIER_THRESHOLD_def)
  have e: "check_results ?r1 ?rs [''C''] 0 qp_ABC = check_results ?r2 ?rs [''C''] 0 qp_ABC"
    by (rule check_results_prunes[THEN conjunct1, THEN mp]) (rule h)
  have p: "passes (Elem ''T1'' [] [], [], ''g1'')"
    "\<not> passes (Elem ''T2'' [] [], [[''A'', ''B'', ''3.2'']], ''g2'')"
    by (simp_all add: passes_def MAX_OUTLIER_THRESHOLD_def)
  have d: "?r1 (Elem ''T2'' [] []) \<noteq> ?r2 (Elem ''T2'' [] [])"
    by (simp add: fun_eq_iff)
  from p d e show ?thesis by (intro conjI)
qed

section \<open>The state during the search\<close>

lemma rec_growsD: "rec_grows rec \<Longrightarrow> rec t x rem d S0 = Some (r, S1) \<Longrightarrow> grows S0 S1"
  by (auto simp: rec_grows_def)

lemma grows_refl: "grows S S"
  by (simp add: grows_def)

lemma grows_trans: "grows S S1 \<Longrightarrow> grows S1 S2 \<Longrightarrow> grows S S2"
  by (auto simp: grows_def)

lemma grows_tested: "grows S (S\<lparr> tested_graphs := insert g (tested_graphs S) \<rparr>)"
  by (auto simp: grows_def)

lemma grows_solutions: "grows S (S\<lparr> solutions := insert g (solutions S) \<rparr>)"
  by (auto simp: grows_def)


lemma grows_problem: "grows S (S\<lparr> problem_nodes := problem_nodes S @ [x] \<rparr>)"
  by (auto simp: grows_def)

lemma check_loop_grows:
  assumes rec: "rec_grows rec"
  shows "check_loop rec rs remaining depth placed S = Some (r, S') \<Longrightarrow> grows S S'"
proof (induction rs arbitrary: placed S)
  case Nil
  then show ?case by (simp add: grows_refl)
next
  case (Cons a rs)
  obtain new_tree outliers graph_name where a: "a = (new_tree, outliers, graph_name)"
    by (cases a) auto
  let ?S1 = "S\<lparr> tested_graphs := insert graph_name (tested_graphs S) \<rparr>"
  have g1: "grows S ?S1" by (rule grows_tested)
  show ?case
  proof (cases "length outliers \<le> MAX_OUTLIER_THRESHOLD")
    case False
    with Cons.prems have "check_loop rec rs remaining depth placed ?S1 = Some (r, S')"
      by (simp add: a Let_def)
    then have "grows ?S1 S'" by (rule Cons.IH)
    with g1 show ?thesis by (rule grows_trans)
  next
    case True
    show ?thesis
    proof (cases "remaining = []")
      case True
      let ?S2 = "?S1\<lparr> solutions := insert graph_name (solutions ?S1) \<rparr>"
      from Cons.prems \<open>length outliers \<le> MAX_OUTLIER_THRESHOLD\<close> True
      have "check_loop rec rs remaining depth True ?S2 = Some (r, S')"
        by (simp add: a Let_def)
      then have "grows ?S2 S'" by (rule Cons.IH)
      moreover have "grows ?S1 ?S2" by (rule grows_solutions)
      ultimately show ?thesis using g1 grows_trans by blast
    next
      case False
      show ?thesis
      proof (cases "rec new_tree (hd remaining) (tl remaining) (depth + 1) ?S1")
        case None
        with Cons.prems \<open>length outliers \<le> MAX_OUTLIER_THRESHOLD\<close> False show ?thesis
          by (simp add: a Let_def)
      next
        case (Some p)
        obtain o2 S2 where p: "p = (o2, S2)" by (cases p) auto
        from Some p have g2: "grows ?S1 S2" using rec_growsD[OF rec] by simp
        show ?thesis
        proof (cases o2)
          case (Inl e)
          with Cons.prems \<open>length outliers \<le> MAX_OUTLIER_THRESHOLD\<close> False Some p
          have "S' = S2" by (simp add: a Let_def)
          with g1 g2 show ?thesis using grows_trans by blast
        next
          case (Inr u)
          with Cons.prems \<open>length outliers \<le> MAX_OUTLIER_THRESHOLD\<close> False Some p
          have "check_loop rec rs remaining depth True S2 = Some (r, S')"
            by (simp add: a Let_def)
          then have "grows S2 S'" by (rule Cons.IH)
          with g1 g2 show ?thesis using grows_trans by blast
        qed
      qed
    qed
  qed
qed


lemma regular_pass_grows:
  assumes rec: "rec_grows rec"
  shows "regular_pass rec E root_tree targets new_tag remaining depth S = Some (r, S') \<Longrightarrow> grows S S'"
  using check_loop_grows[OF rec]
  by (auto simp: regular_pass_def check_results_def grows_refl split: sum.splits)

lemma admix_pass_grows:
  assumes rec: "rec_grows rec"
  shows "admix_pass rec E root_tree targets new_tag remaining depth S = Some (r, S') \<Longrightarrow> grows S S'"
  using check_loop_grows[OF rec]
  by (auto simp: admix_pass_def check_results_def grows_refl split: sum.splits)

lemma backtrack_grows:
  assumes rec: "rec_grows rec"
  shows "backtrack rec root_tree new_tag remaining depth S = Some (r, S') \<Longrightarrow> grows S S'"
  using rec_growsD[OF rec] grows_problem[of S new_tag]
  by (auto simp: backtrack_def Let_def grows_refl split: if_splits intro: grows_trans)

lemma recurse_tree_grows:
  "recurse_tree fuel E root_tree new_tag remaining depth S = Some (r, S') \<Longrightarrow> grows S S'"
proof (induction fuel arbitrary: root_tree new_tag remaining depth S r S')
  case 0
  then show ?case by simp
next
  case (Suc fuel)
  let ?rec = "recurse_tree fuel E"
  let ?T = "target_nodes S root_tree"
  have rec: "rec_grows ?rec"
    unfolding rec_grows_def using Suc.IH by blast
  from Suc.prems obtain o1 S1 where
    p1: "regular_pass ?rec E root_tree ?T new_tag remaining depth S = Some (o1, S1)"
    by (auto simp: Let_def split: option.splits)
  have g1: "grows S S1" using p1 by (rule regular_pass_grows[OF rec])
  show ?case
  proof (cases o1)
    case (Inl e)
    with Suc.prems p1 have "S' = S1" by (simp add: Let_def)
    with g1 show ?thesis by simp
  next
    case (Inr node_placed)
    show ?thesis
    proof (cases node_placed)
      case True
      with Suc.prems p1 Inr have "S' = S1" by (simp add: Let_def)
      with g1 show ?thesis by simp
    next
      case False
      with Suc.prems p1 Inr obtain o2 S2 where
        p2: "admix_pass ?rec E root_tree ?T new_tag remaining depth S1 = Some (o2, S2)"
        by (auto simp: Let_def split: option.splits)
      have g2: "grows S1 S2" using p2 by (rule admix_pass_grows[OF rec])
      show ?thesis
      proof (cases o2)
        case (Inl e)
        with Suc.prems p1 p2 Inr False have "S' = S2" by (simp add: Let_def)
        with g1 g2 show ?thesis using grows_trans by blast
      next
        case (Inr node_placed2)
        show ?thesis
        proof (cases node_placed2)
          case True
          with Suc.prems p1 p2 \<open>o1 = Inr node_placed\<close> Inr False have "S' = S2" by (simp add: Let_def)
          with g1 g2 show ?thesis using grows_trans by blast
        next
          case nope: False
          with Suc.prems p1 p2 \<open>o1 = Inr node_placed\<close> Inr False
          have "backtrack ?rec root_tree new_tag remaining depth S2 = Some (r, S')"
            by (simp add: Let_def)
          then have "grows S2 S'" by (rule backtrack_grows[OF rec])
          with g1 g2 show ?thesis using grows_trans by blast
        qed
      qed
    qed
  qed
qed

lemma find_graph_grows: "find_graph fuel E S = Some (r, S') \<Longrightarrow> grows S S'"
  using recurse_tree_grows
  by (auto simp: find_graph_def Let_def grows_refl split: if_splits)

section \<open>The driver\<close>

declare permute_loop.simps [simp del]

lemma permute_loop_unfold:
  "permute_loop fuel E all_nodes_perms S =
     (if solutions S = {} \<or> EXHAUSTIVE_SEARCH
      then
        (case find_graph fuel E S of
           None \<Rightarrow> None
         | Some (r, S1) \<Rightarrow>
             (case r of
                Inl IndexError \<Rightarrow> Some (Inl IndexError, S1)
              | Inl TypeError \<Rightarrow> Some (Inl TypeError, S1)
              | _ \<Rightarrow>
                  if all_nodes_perms = [] then Some (Inr (), S1)
                  else permute_loop fuel E (butlast all_nodes_perms)
                         (S1\<lparr> nodes := last all_nodes_perms \<rparr>)))
      else Some (Inr (), S))"
  by (rule permute_loop.simps)

lemma permute_loop_keeps:
  "permute_loop fuel E perms S = Some (r, S') \<Longrightarrow>
     set (problem_nodes S) \<subseteq> set (problem_nodes S') \<and>
     tested_graphs S \<subseteq> tested_graphs S' \<and>
     solutions S \<subseteq> solutions S' \<and>
     outgroup S' = outgroup S \<and>
     nodes S' \<in> insert (nodes S) (set perms)"
proof (induction perms arbitrary: S rule: rev_induct)
  case Nil
  from Nil show ?case
    using find_graph_grows[of fuel E S]
    by (subst (asm) permute_loop_unfold)
       (auto simp: grows_def split: if_splits option.splits sum.splits exn.splits)
next
  case (snoc p perms)
  show ?case
  proof (cases "solutions S = {} \<or> EXHAUSTIVE_SEARCH")
    case False
    with snoc.prems show ?thesis by (subst (asm) permute_loop_unfold) simp
  next
    case True
    with snoc.prems obtain r1 S1 where fg: "find_graph fuel E S = Some (r1, S1)"
      by (subst (asm) permute_loop_unfold) (auto split: option.splits)
    from fg have g: "grows S S1" by (rule find_graph_grows)
    show ?thesis
    proof (cases "r1 = Inl IndexError \<or> r1 = Inl TypeError")
      case stop: True
      with snoc.prems True fg have "S' = S1"
        by (subst (asm) permute_loop_unfold) auto
      with g show ?thesis by (auto simp: grows_def)
    next
      case go: False
      with snoc.prems True fg
      have "permute_loop fuel E perms (S1\<lparr> nodes := p \<rparr>) = Some (r, S')"
        by (subst (asm) permute_loop_unfold) (auto split: sum.splits exn.splits)
      from snoc.IH[OF this] g show ?thesis by (auto simp: grows_def)
    qed
  qed
qed






section \<open>The constructor and the orders of insertion\<close>

declare permutations.simps [simp del]








section \<open>Labels that are already in the tree\<close>





section \<open>Termination of the search\<close>








lemma test_trees_error: "test_trees E ts d = Inl e \<Longrightarrow> e = IndexError"
  by (induction ts arbitrary: e)
     (auto simp: run_qpgraph_def Let_def split: sum.splits prod.splits if_splits)




lemma recurse_tree_Suc:
  "recurse_tree (Suc fuel) E t x rem d S =
     (case regular_pass (recurse_tree fuel E) E t (target_nodes S t) x rem d S of
        None \<Rightarrow> None
      | Some (Inl e, S1) \<Rightarrow> Some (Inl e, S1)
      | Some (Inr True, S1) \<Rightarrow> Some (Inr (), S1)
      | Some (Inr False, S1) \<Rightarrow>
          (case admix_pass (recurse_tree fuel E) E t (target_nodes S t) x rem d S1 of
             None \<Rightarrow> None
           | Some (Inl e, S2) \<Rightarrow> Some (Inl e, S2)
           | Some (Inr True, S2) \<Rightarrow> Some (Inr (), S2)
           | Some (Inr False, S2) \<Rightarrow> backtrack (recurse_tree fuel E) t x rem d S2))"
  by (simp add: Let_def split: option.splits sum.splits prod.splits bool.splits)

declare recurse_tree.simps(2) [simp del]


























section \<open>Deferral of a node\<close>

text \<open>
  C2: when neither the regular pass nor the admixture pass places the new label, then the
  call is the call for the first label of the remaining list, with the new label at the
  end of the list and in the list of problem nodes, at the same depth, if the label is
  not in the list of problem nodes, the remaining list is not empty and the search is not
  exhaustive; otherwise \<^verbatim>\<open>NodeUnplaceable\<close> is raised. The list of problem nodes that is
  consulted holds all the labels that were in it when the call started, and no run of the
  driver loop takes a label out of it: the list belongs to the object, not to the attempt.
\<close>

theorem neither_pass_places:
  assumes "regular_pass (recurse_tree fuel E) E t (target_nodes S t) x rem d S = Some (Inr False, S1)"
    and "admix_pass (recurse_tree fuel E) E t (target_nodes S t) x rem d S1 = Some (Inr False, S2)"
  shows "recurse_tree (Suc fuel) E t x rem d S =
           (if x \<notin> set (problem_nodes S2) \<and> rem \<noteq> [] \<and> \<not> EXHAUSTIVE_SEARCH
            then recurse_tree fuel E t (hd rem) (tl rem @ [x]) d
                   (S2\<lparr> problem_nodes := problem_nodes S2 @ [x] \<rparr>)
            else Some (Inl (NodeUnplaceable x), S2))
         \<and> set (problem_nodes S) \<subseteq> set (problem_nodes S2)
         \<and> (\<forall>fuel' perms r S'. permute_loop fuel' E perms S = Some (r, S') \<longrightarrow>
               set (problem_nodes S) \<subseteq> set (problem_nodes S'))"
proof -
  have grow: "rec_grows (recurse_tree fuel E)"
    unfolding rec_grows_def using recurse_tree_grows by blast
  from regular_pass_grows[OF grow assms(1)] admix_pass_grows[OF grow assms(2)]
  have "set (problem_nodes S) \<subseteq> set (problem_nodes S2)" by (auto simp: grows_def)
  moreover have "recurse_tree (Suc fuel) E t x rem d S = backtrack (recurse_tree fuel E) t x rem d S2"
    using assms by (simp add: recurse_tree_Suc)
  moreover have "\<forall>fuel' perms r S'. permute_loop fuel' E perms S = Some (r, S') \<longrightarrow>
               set (problem_nodes S) \<subseteq> set (problem_nodes S')"
    using permute_loop_keeps by blast
  ultimately show ?thesis by (simp add: backtrack_def Let_def)
qed

theorem neither_pass_places_witness:
  "regular_pass (recurse_tree 5 E_fail) E_fail
       (Elem ''R'' [] [Elem ''Out'' [] [], Elem ''A'' [] []])
       (target_nodes qp_ABC (Elem ''R'' [] [Elem ''Out'' [] [], Elem ''A'' [] []]))
       ''B'' [''C''] 0 qp_ABC
     = Some (Inr False, qp_ABC\<lparr> tested_graphs := {''(Out,(A''} \<rparr>)
   \<and> admix_pass (recurse_tree 5 E_fail) E_fail
       (Elem ''R'' [] [Elem ''Out'' [] [], Elem ''A'' [] []])
       (target_nodes qp_ABC (Elem ''R'' [] [Elem ''Out'' [] [], Elem ''A'' [] []]))
       ''B'' [''C''] 0 (qp_ABC\<lparr> tested_graphs := {''(Out,(A''} \<rparr>)
     = Some (Inr False, qp_ABC\<lparr> tested_graphs := {''(Out,(A''} \<rparr>)
   \<and> recurse_tree (Suc 5) E_fail (Elem ''R'' [] [Elem ''Out'' [] [], Elem ''A'' [] []]) ''B'' [''C''] 0 qp_ABC
     = recurse_tree 5 E_fail (Elem ''R'' [] [Elem ''Out'' [] [], Elem ''A'' [] []]) ''C'' [''B''] 0
         (qp_ABC\<lparr> tested_graphs := {''(Out,(A''}, problem_nodes := [''B''] \<rparr>)
   \<and> permute_loop 9 E_fail [[''C'', ''B'', ''A'']] qp_ABC
     = Some (Inr (), qp_ABC\<lparr> nodes := [''C'', ''B'', ''A''], problem_nodes := [''B'', ''C''],
                      tested_graphs := {''(Out,(B'', ''(Out,(A''} \<rparr>)
   \<and> set (problem_nodes qp_ABC) \<subseteq> set [''B'', ''C'']"
proof -
  let ?t = "Elem ''R'' [] [Elem ''Out'' [] [], Elem ''A'' [] []]"
  let ?S1 = "qp_ABC\<lparr> tested_graphs := {''(Out,(A''} \<rparr>"
  have h1: "regular_pass (recurse_tree 5 E_fail) E_fail ?t (target_nodes qp_ABC ?t) ''B'' [''C''] 0 qp_ABC
     = Some (Inr False, ?S1)" by code_simp
  have h2: "admix_pass (recurse_tree 5 E_fail) E_fail ?t (target_nodes qp_ABC ?t) ''B'' [''C''] 0 ?S1
     = Some (Inr False, ?S1)" by code_simp
  have p: "problem_nodes ?S1 = []" by code_simp
  have l: "permute_loop 9 E_fail [[''C'', ''B'', ''A'']] qp_ABC
     = Some (Inr (), qp_ABC\<lparr> nodes := [''C'', ''B'', ''A''], problem_nodes := [''B'', ''C''],
                      tested_graphs := {''(Out,(B'', ''(Out,(A''} \<rparr>)" by code_simp
  note c = neither_pass_places[OF h1 h2]
  from c[THEN conjunct1]
  have r: "recurse_tree (Suc 5) E_fail ?t ''B'' [''C''] 0 qp_ABC
     = recurse_tree 5 E_fail ?t ''C'' [''B''] 0
         (qp_ABC\<lparr> tested_graphs := {''(Out,(A''}, problem_nodes := [''B''] \<rparr>)"
    by (simp add: p EXHAUSTIVE_SEARCH_def)
  from c[THEN conjunct2, THEN conjunct2, rule_format, OF l]
  have "set (problem_nodes qp_ABC) \<subseteq> set [''B'', ''C'']" by simp
  with h1 h2 l r show ?thesis by (intro conjI)
qed

theorem problem_nodes_carried_over_counterexample:
  "find_graph 9 E_fail qp_ABC
     = Some (Inl (NodeUnplaceable ''B''),
             qp_ABC\<lparr> problem_nodes := [''B'', ''C''], tested_graphs := {''(Out,(A''} \<rparr>)
   \<and> find_graph 9 E_fail
       (qp_ABC\<lparr> problem_nodes := [''B'', ''C''], tested_graphs := {''(Out,(A''},
                nodes := [''C'', ''B'', ''A''] \<rparr>)
     = Some (Inl (NodeUnplaceable ''B''),
             qp_ABC\<lparr> nodes := [''C'', ''B'', ''A''], problem_nodes := [''B'', ''C''],
                      tested_graphs := {''(Out,(B'', ''(Out,(A''} \<rparr>)
   \<and> find_graph 9 E_fail
       (qp_ABC\<lparr> problem_nodes := [], tested_graphs := {''(Out,(A''},
                nodes := [''C'', ''B'', ''A''] \<rparr>)
     = Some (Inl (NodeUnplaceable ''B''),
             qp_ABC\<lparr> nodes := [''C'', ''B'', ''A''], problem_nodes := [''B'', ''A''],
                      tested_graphs := {''(Out,(B'', ''(Out,(A''} \<rparr>)"
  by code_simp

end
